theory Spec2Isabelle
  imports Complex_Main
begin

section \<open>Phone-line contracts (contract.py)\<close>

text \<open>
  A shallow embedding of \<^verbatim>\<open>contract.py\<close>: the abstract class \<^verbatim>\<open>Contract\<close> and its
  three variants \<^verbatim>\<open>MTMContract\<close>, \<^verbatim>\<open>TermContract\<close> and \<^verbatim>\<open>PrepaidContract\<close>.

  Conventions of the embedding.
  \<^item> A Python object is a record; a subclass is a record extension, so that the methods
    of the base class are functions on every extension (\<open>'a contract_scheme\<close>).
  \<^item> A method takes the object and returns a pair: what the call returns or raises
    (\<open>error + 'r\<close>, \<open>Inl\<close> the exception) and the object as the call leaves it. A method
    that raises after an assignment returns the object with the assignment done.
  \<^item> An attribute that may hold \<^verbatim>\<open>None\<close>, or that \<^verbatim>\<open>__init__\<close> does not create, is an
    \<open>option\<close>; reading a method or field through \<^verbatim>\<open>None\<close>, or reading an attribute that
    does not exist, raises \<^verbatim>\<open>AttributeError\<close>.
  \<^item> A minute count is a Python integer, \<open>int\<close>. The duration of a call is a Python
    number, an integer or a float. The quotient \<^verbatim>\<open>x / 60.0\<close> is computed as Python
    computes it: an integer is converted to a float first, the quotient is rounded to
    the nearest double, and \<^verbatim>\<open>ceil\<close> is applied to the rounded quotient.
  \<^item> Amounts of money are rationals, added and subtracted exactly, as in the stand-in
    for the class \<^verbatim>\<open>Bill\<close>, which is not part of the sources.
\<close>

subsection \<open>Exceptions and dates\<close>

datatype error = AttributeError | NotImplementedError | OverflowError | ValueError

text \<open>The three attributes of \<^verbatim>\<open>datetime.date\<close>.\<close>

record date =
  year :: int
  month :: int
  day :: int

subsection \<open>Numbers\<close>

text \<open>
  A Python float is a double: a finite value, an infinity or a NaN. The finite values
  are given by the rational they denote; the sign of a zero is not kept, since the
  only float operation of the module, \<^verbatim>\<open>ceil(x / 60.0)\<close>, gives the integer 0 for both
  zeros.
\<close>

datatype pyfloat = Finite rat | PosInf | NegInf | NaN

datatype number = PyInt int | PyFloat pyfloat

text \<open>The number of binary digits of a natural number (\<^verbatim>\<open>int.bit_length\<close>).\<close>

fun bit_length :: "nat \<Rightarrow> nat" where
  "bit_length n = (if n = 0 then 0 else Suc (bit_length (n div 2)))"

declare bit_length.simps [simp del]

text \<open>
  The binary exponent of a positive rational \<open>x\<close>: the integer \<open>e\<close> with
  \<open>2 powi e \<le> x\<close> and \<open>x < 2 powi (e + 1)\<close>.
\<close>

definition binade :: "rat \<Rightarrow> int" where
  "binade x =
     (if 1 \<le> x then int (bit_length (nat \<lfloor>x\<rfloor>)) - 1
      else - int (bit_length (nat (\<lceil>1 / x\<rceil> - 1))))"

text \<open>Rounding to the nearest integer, a tie to the even one.\<close>

definition round_half_even :: "rat \<Rightarrow> int" where
  "round_half_even x =
     (let f = \<lfloor>x\<rfloor>; r = x - of_int f
      in if r < 1 / 2 then f
         else if 1 / 2 < r then f + 1
         else if even f then f else f + 1)"

text \<open>
  The distance between neighbouring doubles around \<open>x\<close>: 53 significant bits, and the
  exponent of the subnormal range, \<open>-1022\<close>, below it.
\<close>

definition quantum :: "rat \<Rightarrow> rat" where
  "quantum x = 2 powi (max (binade \<bar>x\<bar>) (- 1022) - 52)"

text \<open>
  The double nearest to a rational, ties to even (the IEEE 754 default rounding), with
  no bound on the exponent from above: the callers compare the result with
  \<open>2 ^ 1024\<close>, from where on a double overflows.
\<close>

definition nearest_double :: "rat \<Rightarrow> rat" where
  "nearest_double x =
     (if x = 0 then 0 else of_int (round_half_even (x / quantum x)) * quantum x)"

text \<open>
  The conversion of an integer operand of \<^verbatim>\<open>/\<close> to a float: correctly rounded, and
  \<^verbatim>\<open>OverflowError\<close> when the integer is too large for a double.
\<close>

definition float_of_int :: "int \<Rightarrow> error + pyfloat" where
  "float_of_int d =
     (let r = nearest_double (of_int d)
      in if 2 ^ 1024 \<le> \<bar>r\<bar> then Inl OverflowError else Inr (Finite r))"

text \<open>The float division \<^verbatim>\<open>x / 60.0\<close> of a float.\<close>

fun div_60 :: "pyfloat \<Rightarrow> pyfloat" where
  "div_60 (Finite r) =
     (let q = nearest_double (r / 60)
      in if 2 ^ 1024 \<le> q then PosInf
         else if q \<le> - (2 ^ 1024) then NegInf
         else Finite q)"
| "div_60 PosInf = PosInf"
| "div_60 NegInf = NegInf"
| "div_60 NaN = NaN"

text \<open>\<^verbatim>\<open>x / 60.0\<close> for a number \<open>x\<close>.\<close>

fun truediv_60 :: "number \<Rightarrow> error + pyfloat" where
  "truediv_60 (PyInt d) =
     (case float_of_int d of Inl e \<Rightarrow> Inl e | Inr x \<Rightarrow> Inr (div_60 x))"
| "truediv_60 (PyFloat x) = Inr (div_60 x)"

text \<open>
  \<^verbatim>\<open>math.ceil\<close> of a float: the least integer not below it, \<^verbatim>\<open>OverflowError\<close> for an
  infinity and \<^verbatim>\<open>ValueError\<close> for a NaN.
\<close>

fun ceil :: "pyfloat \<Rightarrow> error + int" where
  "ceil (Finite r) = Inr \<lceil>r\<rceil>"
| "ceil PosInf = Inl OverflowError"
| "ceil NegInf = Inl OverflowError"
| "ceil NaN = Inl ValueError"

text \<open>The expression \<^verbatim>\<open>ceil(x / 60.0)\<close>, which the module evaluates in four places.\<close>

definition ceil_div_60 :: "number \<Rightarrow> error + int" where
  "ceil_div_60 x = (case truediv_60 x of Inl e \<Rightarrow> Inl e | Inr q \<Rightarrow> ceil q)"

text \<open>A number that is not negative; a NaN is not.\<close>

fun nonneg :: "number \<Rightarrow> bool" where
  "nonneg (PyInt d) = (0 \<le> d)"
| "nonneg (PyFloat (Finite r)) = (0 \<le> r)"
| "nonneg (PyFloat PosInf) = True"
| "nonneg (PyFloat NegInf) = False"
| "nonneg (PyFloat NaN) = False"

text \<open>
  The value of a number of seconds in the range where rounding the quotient by 60 does
  not change the whole minutes: a non-negative integer below \<open>2 ^ 53\<close>, or a
  non-negative double below \<open>2 ^ 53\<close> that is zero or so large that the quotient is
  not subnormal.
\<close>

fun exact_seconds :: "number \<Rightarrow> rat option" where
  "exact_seconds (PyInt d) = (if 0 \<le> d \<and> d < 2 ^ 53 then Some (of_int d) else None)"
| "exact_seconds (PyFloat (Finite r)) =
     (if nearest_double r = r \<and> (r = 0 \<or> 60 * 2 powi (- 1022) \<le> r) \<and> r < 2 ^ 53
      then Some r else None)"
| "exact_seconds (PyFloat PosInf) = None"
| "exact_seconds (PyFloat NegInf) = None"
| "exact_seconds (PyFloat NaN) = None"

subsection \<open>Calls\<close>

text \<open>
  Modelled from the spec: the class \<^verbatim>\<open>Call\<close> (module \<^verbatim>\<open>call\<close>) is imported by
  \<^verbatim>\<open>contract.py\<close> and is not part of the sources. The contracts read one attribute of
  it, the duration in seconds, which the spec gives as an integer or a float.
\<close>

record call =
  duration :: number

subsection \<open>The bill\<close>

text \<open>
  Modelled from the spec: the class \<^verbatim>\<open>Bill\<close> (module \<^verbatim>\<open>bill\<close>) is imported by
  \<^verbatim>\<open>contract.py\<close> and is not part of the sources. The spec describes it as a per-month
  cost accumulator: a rate plan with a per-minute cost, a fixed cost, billed minutes
  (which accrue cost), free minutes (which do not, tracked separately), and a total
  cost; the end-to-end example of the spec gives the total as the fixed cost plus the
  billed minutes at the per-minute rate (\<open>50.00 + 2 * 0.05\<close>).
\<close>

record bill =
  plan_name :: string
  min_rate :: rat
  fixed_cost :: rat
  billed_min :: int
  free_min :: int

text \<open>Modelled from the spec: a bill on which nothing has been recorded yet.\<close>

definition Bill_init :: bill where
  "Bill_init =
     \<lparr>plan_name = [], min_rate = 0, fixed_cost = 0, billed_min = 0, free_min = 0\<rparr>"

text \<open>Modelled from the spec: set a rate plan and its per-minute cost.\<close>

definition set_rates :: "string \<Rightarrow> rat \<Rightarrow> bill \<Rightarrow> bill" where
  "set_rates name rate b = b\<lparr>plan_name := name, min_rate := rate\<rparr>"

text \<open>Modelled from the spec: add a fixed cost.\<close>

definition add_fixed_cost :: "rat \<Rightarrow> bill \<Rightarrow> bill" where
  "add_fixed_cost amount b = b\<lparr>fixed_cost := fixed_cost b + amount\<rparr>"

text \<open>Modelled from the spec: add billed (cost-accruing) minutes.\<close>

definition add_billed_minutes :: "int \<Rightarrow> bill \<Rightarrow> bill" where
  "add_billed_minutes n b = b\<lparr>billed_min := billed_min b + n\<rparr>"

text \<open>Modelled from the spec: add free minutes, which accrue no cost.\<close>

definition add_free_minutes :: "int \<Rightarrow> bill \<Rightarrow> bill" where
  "add_free_minutes n b = b\<lparr>free_min := free_min b + n\<rparr>"

text \<open>Modelled from the spec: read the total cost.\<close>

definition get_cost :: "bill \<Rightarrow> rat" where
  "get_cost b = fixed_cost b + min_rate b * of_int (billed_min b)"

subsection \<open>Constants of the module\<close>

definition MTM_MONTHLY_FEE :: rat where
  "MTM_MONTHLY_FEE = 50"

definition TERM_MONTHLY_FEE :: rat where
  "TERM_MONTHLY_FEE = 20"

definition TERM_DEPOSIT :: rat where
  "TERM_DEPOSIT = 300"

definition TERM_MINS :: int where
  "TERM_MINS = 100"

definition MTM_MINS_COST :: rat where
  "MTM_MINS_COST = 5 / 100"

definition TERM_MINS_COST :: rat where
  "TERM_MINS_COST = 1 / 10"

definition PREPAID_MINS_COST :: rat where
  "PREPAID_MINS_COST = 25 / 1000"

subsection \<open>Contract, the abstract base class\<close>

record contract =
  start :: "date option"
  bill :: "bill option"

definition Contract_init :: "date \<Rightarrow> contract" where
  "Contract_init s = \<lparr>start = Some s, bill = None\<rparr>"

definition Contract_new_month ::
    "int \<Rightarrow> int \<Rightarrow> bill \<Rightarrow> 'a contract_scheme \<Rightarrow> (error + unit) \<times> 'a contract_scheme" where
  "Contract_new_month mo yr b c = (Inl NotImplementedError, c)"

text \<open>
  \<^verbatim>\<open>self.bill.add_billed_minutes(ceil(call.duration / 60.0))\<close>: with no bill bound the
  attribute lookup on \<^verbatim>\<open>None\<close> raises first, then the argument is evaluated and may
  raise; in both cases nothing has been changed.
\<close>

definition Contract_bill_call ::
    "call \<Rightarrow> 'a contract_scheme \<Rightarrow> (error + unit) \<times> 'a contract_scheme" where
  "Contract_bill_call cl c =
     (case bill c of
        None \<Rightarrow> (Inl AttributeError, c)
      | Some b \<Rightarrow>
          (case ceil_div_60 (duration cl) of
             Inl e \<Rightarrow> (Inl e, c)
           | Inr mins \<Rightarrow> (Inr (), c\<lparr>bill := Some (add_billed_minutes mins b)\<rparr>)))"

text \<open>
  \<^verbatim>\<open>self.start = None\<close> comes first, so it is done also when \<^verbatim>\<open>self.bill.get_cost()\<close>
  raises.
\<close>

definition Contract_cancel_contract ::
    "'a contract_scheme \<Rightarrow> (error + rat) \<times> 'a contract_scheme" where
  "Contract_cancel_contract c =
     (let c1 = c\<lparr>start := None\<rparr>
      in case bill c1 of
           None \<Rightarrow> (Inl AttributeError, c1)
         | Some b \<Rightarrow> (Inr (get_cost b), c1))"

subsection \<open>MTMContract\<close>

text \<open>
  \<^verbatim>\<open>MTMContract\<close> adds no attribute and overrides \<^verbatim>\<open>new_month\<close> only; its
  \<^verbatim>\<open>bill_call\<close> and \<^verbatim>\<open>cancel_contract\<close> are \<open>Contract_bill_call\<close> and
  \<open>Contract_cancel_contract\<close>.
\<close>

type_synonym mtm_contract = contract

definition MTMContract_init :: "date \<Rightarrow> mtm_contract" where
  "MTMContract_init s = Contract_init s"

definition MTMContract_new_month ::
    "int \<Rightarrow> int \<Rightarrow> bill \<Rightarrow> mtm_contract \<Rightarrow> (error + unit) \<times> mtm_contract" where
  "MTMContract_new_month mo yr b c =
     (let b1 = add_fixed_cost MTM_MONTHLY_FEE b;
          b2 = set_rates ''MTM'' MTM_MINS_COST b1
      in (Inr (), c\<lparr>bill := Some b2\<rparr>))"

subsection \<open>TermContract\<close>

text \<open>
  \<^verbatim>\<open>_free\<close>, \<^verbatim>\<open>_curr_month\<close> and \<^verbatim>\<open>_curr_year\<close> lose their leading underscore. The
  constructor creates \<^verbatim>\<open>_free\<close> but neither \<^verbatim>\<open>_curr_month\<close> nor \<^verbatim>\<open>_curr_year\<close>:
  they exist from the first \<^verbatim>\<open>new_month\<close> on.
\<close>

record term_contract = contract +
  end_date :: date
  free :: int
  curr_month :: "int option"
  curr_year :: "int option"

definition TermContract_init :: "date \<Rightarrow> date \<Rightarrow> term_contract" where
  "TermContract_init s e =
     \<lparr>start = Some s, bill = None,
      end_date = e, free = TERM_MINS, curr_month = None, curr_year = None\<rparr>"

definition TermContract_new_month ::
    "int \<Rightarrow> int \<Rightarrow> bill \<Rightarrow> term_contract \<Rightarrow> (error + unit) \<times> term_contract" where
  "TermContract_new_month mo yr b c =
     (let c1 = c\<lparr>bill := Some b\<rparr>
      in case start c1 of
           None \<Rightarrow> (Inl AttributeError, c1)
         | Some s \<Rightarrow>
             (let b1 = (if mo = month s \<and> yr = year s
                        then add_fixed_cost TERM_DEPOSIT b else b);
                  b2 = add_fixed_cost TERM_MONTHLY_FEE b1;
                  b3 = set_rates ''TERM'' TERM_MINS_COST b2
              in (Inr (),
                  c1\<lparr>bill := Some b3, free := TERM_MINS,
                     curr_month := Some mo, curr_year := Some yr\<rparr>)))"

definition TermContract_bill_call ::
    "call \<Rightarrow> term_contract \<Rightarrow> (error + unit) \<times> term_contract" where
  "TermContract_bill_call cl c =
     (case ceil_div_60 (duration cl) of
        Inl e \<Rightarrow> (Inl e, c)
      | Inr mins \<Rightarrow>
          if mins \<le> free c then
            (case bill c of
               None \<Rightarrow> (Inl AttributeError, c)
             | Some b \<Rightarrow>
                 (Inr (), c\<lparr>bill := Some (add_free_minutes mins b), free := free c - mins\<rparr>))
          else
            (case bill c of
               None \<Rightarrow> (Inl AttributeError, c)
             | Some b \<Rightarrow>
                 (case ceil_div_60 (PyInt (free c)) of
                    Inl e \<Rightarrow> (Inl e, c)
                  | Inr free_mins \<Rightarrow>
                      (let b1 = add_free_minutes free_mins b;
                           mins1 = mins - free c
                       in (Inr (),
                           c\<lparr>bill := Some (add_billed_minutes mins1 b1), free := 0\<rparr>)))))"

text \<open>\<^verbatim>\<open>self.bill.get_cost()\<close>, as the two cancellations below read it.\<close>

definition bill_get_cost :: "'a contract_scheme \<Rightarrow> error + rat" where
  "bill_get_cost c =
     (case bill c of None \<Rightarrow> Inl AttributeError | Some b \<Rightarrow> Inr (get_cost b))"

text \<open>
  The condition is evaluated left to right and \<^verbatim>\<open>and\<close> short-circuits:
  \<^verbatim>\<open>_curr_month\<close> is read only when the year test succeeds. Nothing is assigned.
\<close>

definition TermContract_cancel_contract ::
    "term_contract \<Rightarrow> (error + rat) \<times> term_contract" where
  "TermContract_cancel_contract c =
     (case curr_year c of
        None \<Rightarrow> (Inl AttributeError, c)
      | Some cy \<Rightarrow>
          if cy \<ge> year (end_date c) then
            (case curr_month c of
               None \<Rightarrow> (Inl AttributeError, c)
             | Some cm \<Rightarrow>
                 if cm > month (end_date c) then
                   (case bill_get_cost c of
                      Inl e \<Rightarrow> (Inl e, c)
                    | Inr cost \<Rightarrow> (Inr (cost - TERM_DEPOSIT), c))
                 else (bill_get_cost c, c))
          else (bill_get_cost c, c))"

subsection \<open>PrepaidContract\<close>

record prepaid_contract = contract +
  balance :: rat

definition PrepaidContract_init :: "date \<Rightarrow> rat \<Rightarrow> prepaid_contract" where
  "PrepaidContract_init s bal = \<lparr>start = Some s, bill = None, balance = bal * (- 1)\<rparr>"


definition PrepaidContract_bill_call ::
    "call \<Rightarrow> prepaid_contract \<Rightarrow> (error + unit) \<times> prepaid_contract" where
  "PrepaidContract_bill_call cl c =
     (case bill c of
        None \<Rightarrow> (Inl AttributeError, c)
      | Some b \<Rightarrow>
          (case ceil_div_60 (duration cl) of
             Inl e \<Rightarrow> (Inl e, c)
           | Inr mins \<Rightarrow>
               (let b1 = add_billed_minutes mins b
                in (Inr (), c\<lparr>bill := Some b1, balance := get_cost b1\<rparr>))))"

definition PrepaidContract_cancel_contract ::
    "prepaid_contract \<Rightarrow> (error + rat) \<times> prepaid_contract" where
  "PrepaidContract_cancel_contract c =
     (if balance c > 0 then (Inr (balance c), c) else (Inr 0, c))"

subsection \<open>Drivers\<close>

text \<open>
  What a caller can do with a term contract, one operation after the other. An
  exception of a call does not stop the run: the run goes on from the object as the
  failed call left it, so that every object a caller can reach by catching or not
  catching exceptions is the result of some run.
\<close>

datatype term_op = NewMonth int int bill | BillCall call | Cancel

fun term_step :: "term_op \<Rightarrow> term_contract \<Rightarrow> term_contract" where
  "term_step (NewMonth mo yr b) c = snd (TermContract_new_month mo yr b c)"
| "term_step (BillCall cl) c = snd (TermContract_bill_call cl c)"
| "term_step Cancel c = snd (TermContract_cancel_contract c)"

fun term_run :: "term_op list \<Rightarrow> term_contract \<Rightarrow> term_contract" where
  "term_run [] c = c"
| "term_run (x # xs) c = term_run xs (term_step x c)"

fun nonneg_duration :: "term_op \<Rightarrow> bool" where
  "nonneg_duration (BillCall cl) = nonneg (duration cl)"
| "nonneg_duration _ = True"

text \<open>
  A sequence of billing cycles, each a month, a year and the bill of that cycle:
  \<^verbatim>\<open>new_month\<close> is called once per cycle, and for each cycle the fixed cost that the
  call put on the cycle's bill is recorded.
\<close>

fun cycle_of :: "int \<times> int \<times> bill \<Rightarrow> int \<times> int" where
  "cycle_of (mo, yr, b) = (mo, yr)"

fun fixed_costs_added :: "(int \<times> int \<times> bill) list \<Rightarrow> term_contract \<Rightarrow> rat list" where
  "fixed_costs_added [] c = []"
| "fixed_costs_added ((mo, yr, b) # cs) c =
     (let c1 = snd (TermContract_new_month mo yr b c)
      in (case bill c1 of None \<Rightarrow> 0 | Some b1 \<Rightarrow> fixed_cost b1 - fixed_cost b)
         # fixed_costs_added cs c1)"

text \<open>The number of cycles whose bill received the deposit on top of the monthly fee.\<close>

definition deposits_charged :: "(int \<times> int \<times> bill) list \<Rightarrow> term_contract \<Rightarrow> nat" where
  "deposits_charged cs c =
     count_list (fixed_costs_added cs c) (TERM_DEPOSIT + TERM_MONTHLY_FEE)"

text \<open>The invariant of the free-minute counter.\<close>

definition free_inv :: "term_contract \<Rightarrow> bool" where
  "free_inv c = (start c \<noteq> None \<and> 0 \<le> free c \<and> free c \<le> 100)"

subsection \<open>Sample objects\<close>

definition jan_2023 :: date where
  "jan_2023 = \<lparr>year = 2023, month = 1, day = 1\<rparr>"

definition jan_2025 :: date where
  "jan_2025 = \<lparr>year = 2025, month = 1, day = 1\<rparr>"

text \<open>A term contract from January 2023 to January 2025, in its first cycle.\<close>

definition term_cycle_2023 :: term_contract where
  "term_cycle_2023 =
     snd (TermContract_new_month 1 2023 Bill_init (TermContract_init jan_2023 jan_2025))"



definition term_ops_2023 :: "term_op list" where
  "term_ops_2023 =
     [NewMonth 1 2023 Bill_init, BillCall \<lparr>duration = PyInt 90\<rparr>,
      BillCall \<lparr>duration = PyInt 6000\<rparr>]"

text \<open>
  The end-to-end example of the spec: a month-to-month contract started in January
  2023, one \<^verbatim>\<open>new_month(1, 2023, bill)\<close> and one call of 90 seconds.
\<close>

definition mtm_jan_2023 :: mtm_contract where
  "mtm_jan_2023 =
     snd (Contract_bill_call \<lparr>duration = PyInt 90\<rparr>
            (snd (MTMContract_new_month 1 2023 Bill_init (MTMContract_init jan_2023))))"

definition mtm_bill_jan_2023 :: bill where
  "mtm_bill_jan_2023 =
     \<lparr>plan_name = ''MTM'', min_rate = 5 / 100, fixed_cost = 50, billed_min = 2, free_min = 0\<rparr>"

section \<open>Auxiliary facts\<close>

lemmas bill_ops =
  set_rates_def add_fixed_cost_def add_billed_minutes_def add_free_minutes_def get_cost_def

lemmas module_consts =
  MTM_MONTHLY_FEE_def TERM_MONTHLY_FEE_def TERM_DEPOSIT_def TERM_MINS_def
  MTM_MINS_COST_def TERM_MINS_COST_def PREPAID_MINS_COST_def

subsection \<open>Evaluating the rounding on numerals\<close>

lemma floor_numeral_divide:
  "\<lfloor>numeral a / numeral b :: rat\<rfloor> = numeral a div numeral b"
  using floor_divide_of_int_eq [of "numeral a" "numeral b", where ?'a = rat] by simp

lemma floor_one_divide: "\<lfloor>1 / numeral b :: rat\<rfloor> = 1 div numeral b"
  using floor_divide_of_int_eq [of 1 "numeral b", where ?'a = rat] by simp

lemma ceiling_numeral_divide:
  "\<lceil>numeral a / numeral b :: rat\<rceil> = - (- numeral a div numeral b)"
  using ceiling_divide_eq_div [of "numeral a" "numeral b", where ?'a = rat] by simp

lemma ceiling_one_divide: "\<lceil>1 / numeral b :: rat\<rceil> = - (- 1 div numeral b)"
  using ceiling_divide_eq_div [of 1 "numeral b", where ?'a = rat] by simp

lemmas double_eval =
  nearest_double_def quantum_def binade_def round_half_even_def bit_length.simps Let_def
  floor_numeral_divide floor_one_divide ceiling_numeral_divide ceiling_one_divide
  float_of_int_def ceil_div_60_def

subsection \<open>The nearest double\<close>

lemma bit_length_pos: "0 < n \<Longrightarrow> 0 < bit_length n"
  by (subst bit_length.simps) simp

lemma bit_length_bounds: "0 < n \<Longrightarrow> 2 ^ (bit_length n - 1) \<le> n \<and> n < 2 ^ bit_length n"
proof (induction n rule: bit_length.induct)
  case (1 n)
  show ?case
  proof (cases "n div 2 = 0")
    case True
    with "1.prems" have "n = 1" by presburger
    then show ?thesis by (simp add: bit_length.simps)
  next
    case False
    let ?k = "bit_length (n div 2)"
    from False "1.prems" have ih: "2 ^ (?k - 1) \<le> n div 2 \<and> n div 2 < 2 ^ ?k"
      using "1.IH" by simp
    from False have kpos: "0 < ?k" by (simp add: bit_length_pos)
    then obtain j where j: "?k = Suc j" by (cases ?k) auto
    have bl: "bit_length n = Suc ?k"
      using "1.prems" by (subst bit_length.simps) simp
    from ih j have "2 * 2 ^ j \<le> 2 * (n div 2)" by simp
    then have lo: "(2::nat) ^ ?k \<le> n" using j by simp
    from ih have "n div 2 + 1 \<le> 2 ^ ?k" by simp
    then have "2 * (n div 2 + 1) \<le> 2 * 2 ^ ?k" by simp
    then have hi: "n < 2 ^ Suc ?k" by simp
    from lo hi bl show ?thesis by simp
  qed
qed

lemma round_half_even_error: "\<bar>of_int (round_half_even z) - z\<bar> \<le> 1 / 2"
proof -
  have "of_int \<lfloor>z\<rfloor> \<le> z" "z < of_int \<lfloor>z\<rfloor> + 1" by linarith+
  then show ?thesis
    by (auto simp: round_half_even_def Let_def)
qed

lemma round_half_even_of_int: "round_half_even (of_int n) = n"
  by (simp add: round_half_even_def)

lemma round_half_even_nonneg: "0 \<le> z \<Longrightarrow> 0 \<le> round_half_even z"
  by (auto simp: round_half_even_def Let_def)

lemma quantum_pos: "0 < quantum x"
  by (simp add: quantum_def zero_less_power_int)

lemma binade_bounds:
  assumes "0 < x"
  shows "2 powi (binade x) \<le> x \<and> x < 2 powi (binade x + 1)"
proof (cases "1 \<le> x")
  case True
  let ?n = "nat \<lfloor>x\<rfloor>"
  let ?k = "bit_length ?n"
  from True have npos: "0 < ?n" by simp
  have nx: "of_nat ?n \<le> x" "x < of_nat ?n + 1"
    using True by (simp_all add: of_nat_nat) linarith+
  have "2 ^ (?k - 1) \<le> ?n \<and> ?n < 2 ^ ?k" by (rule bit_length_bounds [OF npos])
  then have b: "2 ^ (?k - 1) \<le> ?n" "?n + 1 \<le> 2 ^ ?k" by linarith+
  from bit_length_pos [OF npos] obtain j where j: "?k = Suc j" by (cases ?k) auto
  have e: "binade x = int j" using True j by (simp add: binade_def)
  from b(1) j have "(2::rat) ^ j \<le> of_nat ?n"
    by (metis diff_Suc_1 of_nat_le_iff of_nat_numeral of_nat_power)
  with nx(1) have lo: "(2::rat) ^ j \<le> x" by linarith
  from b(2) have "(of_nat (?n + 1) :: rat) \<le> of_nat (2 ^ ?k)"
    by (simp only: of_nat_le_iff)
  then have "(of_nat ?n :: rat) + 1 \<le> 2 ^ Suc j" using j by simp
  with nx(2) have hi: "x < 2 ^ Suc j" by linarith
  have p1: "(2::rat) powi (int j) = 2 ^ j" by simp
  have p2: "(2::rat) powi (int j + 1) = 2 ^ Suc j"
    by (simp add: power_int_add)
  show ?thesis unfolding e p1 p2 using lo hi by simp
next
  case False
  let ?m = "\<lceil>1 / x\<rceil>"
  let ?n = "nat (?m - 1)"
  let ?k = "bit_length ?n"
  from False assms have inv: "1 < 1 / x" by simp
  then have m2: "2 \<le> ?m" by linarith
  then have npos: "0 < ?n" by simp
  have mx: "of_int ?m - 1 < 1 / x" "1 / x \<le> of_int ?m" by linarith+
  from m2 have "0 \<le> ?m - 1" by linarith
  then have "(of_nat ?n :: rat) = of_int (?m - 1)" by (rule of_nat_nat)
  then have nm: "(of_nat ?n :: rat) = of_int ?m - 1" by (simp only: of_int_diff of_int_1)
  have "2 ^ (?k - 1) \<le> ?n \<and> ?n < 2 ^ ?k" by (rule bit_length_bounds [OF npos])
  then have b: "2 ^ (?k - 1) \<le> ?n" "?n + 1 \<le> 2 ^ ?k" by linarith+
  from bit_length_pos [OF npos] obtain j where j: "?k = Suc j" by (cases ?k) auto
  have e: "binade x = - int (Suc j)" using False j by (simp add: binade_def)
  from b(1) j have "(2::rat) ^ j \<le> of_nat ?n"
    by (metis diff_Suc_1 of_nat_le_iff of_nat_numeral of_nat_power)
  with nm mx(1) have a1: "(2::rat) ^ j < 1 / x" by linarith
  from b(2) have "(of_nat (?n + 1) :: rat) \<le> of_nat (2 ^ ?k)"
    by (simp only: of_nat_le_iff)
  then have "(of_nat ?n :: rat) + 1 \<le> 2 ^ Suc j" using j by simp
  with nm mx(2) have a2: "1 / x \<le> 2 ^ Suc j" by linarith
  from a1 assms have hi: "x < 1 / 2 ^ j"
    by (simp add: field_simps)
  from a2 assms have lo: "1 / 2 ^ Suc j \<le> x"
    by (simp add: field_simps)
  have p1: "(2::rat) powi (- int (Suc j)) = 1 / 2 ^ Suc j"
    by (simp only: power_int_minus_divide power_int_of_nat)
  have "- int (Suc j) + 1 = - int j" by simp
  then have p2: "(2::rat) powi (- int (Suc j) + 1) = 1 / 2 ^ j"
    by (simp only: power_int_minus_divide power_int_of_nat)
  show ?thesis unfolding e p1 p2 using lo hi by simp
qed

lemma nearest_double_nonneg: "0 \<le> x \<Longrightarrow> 0 \<le> nearest_double x"
  using quantum_pos [of x]
  by (simp add: nearest_double_def round_half_even_nonneg)

lemma nearest_double_error: "\<bar>nearest_double x - x\<bar> \<le> quantum x / 2"
proof (cases "x = 0")
  case True
  then show ?thesis using quantum_pos [of x] by (simp add: nearest_double_def)
next
  case False
  let ?Q = "quantum x"
  have Q: "0 < ?Q" by (rule quantum_pos)
  have "nearest_double x - x = (of_int (round_half_even (x / ?Q)) - x / ?Q) * ?Q"
    using False Q by (simp add: nearest_double_def field_simps)
  then have "\<bar>nearest_double x - x\<bar> = \<bar>of_int (round_half_even (x / ?Q)) - x / ?Q\<bar> * ?Q"
    using Q by (simp add: abs_mult)
  also have "\<dots> \<le> (1 / 2) * ?Q"
    using round_half_even_error [of "x / ?Q"] Q by (intro mult_right_mono) simp_all
  finally show ?thesis by simp
qed

lemma normal_quantum:
  assumes "2 powi (- 1022) \<le> x"
  shows "\<exists>e. quantum x = 2 powi (e - 52) \<and> 2 powi e \<le> x \<and> x < 2 powi (e + 1)"
proof -
  have xpos: "0 < x"
    using assms zero_less_power_int [of "2::rat" "- 1022"] by linarith
  let ?e = "binade x"
  from binade_bounds [OF xpos] have b: "2 powi ?e \<le> x" "x < 2 powi (?e + 1)" by simp_all
  have "- 1022 \<le> ?e"
  proof (rule ccontr)
    assume "\<not> - 1022 \<le> ?e"
    then have "?e + 1 \<le> - 1022" by simp
    then have "(2::rat) powi (?e + 1) \<le> 2 powi (- 1022)"
      by (intro power_int_increasing) simp_all
    with b(2) assms show False by linarith
  qed
  then have "quantum x = 2 powi (?e - 52)"
    using xpos by (simp add: quantum_def max_def)
  with b show ?thesis by blast
qed

lemma nearest_double_relative_error:
  assumes "2 powi (- 1022) \<le> x"
  shows "\<bar>nearest_double x - x\<bar> \<le> x / 2 ^ 53"
proof -
  from normal_quantum [OF assms] obtain e
    where e: "quantum x = 2 powi (e - 52)" "2 powi e \<le> x" by blast
  have "quantum x / 2 = 2 powi e / 2 ^ 53"
    unfolding e(1) by (simp add: power_int_diff)
  also have "\<dots> \<le> x / 2 ^ 53"
    using e(2) by (simp add: divide_right_mono)
  finally show ?thesis using nearest_double_error [of x] by linarith
qed

lemma small_quantum:
  assumes "2 powi (- 1022) \<le> x" and "x < 2 ^ 53"
  shows "\<exists>d. quantum x = 1 / 2 ^ d \<and> x / 2 ^ 53 < quantum x"
proof -
  from normal_quantum [OF assms(1)] obtain e
    where e: "quantum x = 2 powi (e - 52)" "2 powi e \<le> x" "x < 2 powi (e + 1)" by blast
  have "e \<le> 52"
  proof (rule ccontr)
    assume "\<not> e \<le> 52"
    then have "53 \<le> e" by simp
    then have "(2::rat) powi 53 \<le> 2 powi e"
      by (intro power_int_increasing) simp_all
    with e(2) assms(2) show False by simp
  qed
  then obtain d where d: "e - 52 = - int d"
    by (metis diff_le_0_iff_le minus_minus nonneg_int_cases neg_le_0_iff_le)
  have q: "quantum x = 1 / 2 ^ d"
    unfolding e(1) d by (simp only: power_int_minus_divide power_int_of_nat)
  have "x / 2 ^ 53 < 2 powi (e + 1) / 2 ^ 53"
    using e(3) by (simp add: divide_strict_right_mono)
  also have "\<dots> = 2 powi (e - 52)"
    by (simp add: power_int_diff power_int_add)
  finally show ?thesis using q e(1) by auto
qed

lemma nearest_double_of_int:
  assumes "0 \<le> n" and "n < 2 ^ 53"
  shows "nearest_double (of_int n) = of_int n"
proof (cases "n = 0")
  case True
  then show ?thesis by (simp add: nearest_double_def)
next
  case False
  let ?x = "of_int n :: rat"
  from False assms have "1 \<le> ?x" by simp
  moreover have "(2::rat) powi (- 1022) \<le> 1"
    by (simp add: power_int_minus_divide)
  ultimately have lo: "2 powi (- 1022) \<le> ?x" by linarith
  have hi: "?x < 2 ^ 53" using assms(2)
    by (metis of_int_less_numeral_power_cancel_iff)
  from small_quantum [OF lo hi] obtain d where d: "quantum ?x = 1 / 2 ^ d" by blast
  have "?x / quantum ?x = of_int (n * 2 ^ d)" by (simp add: d)
  then have "round_half_even (?x / quantum ?x) = n * 2 ^ d"
    by (simp only: round_half_even_of_int)
  then show ?thesis using False by (simp add: nearest_double_def d)
qed

lemma double_integer_gap:
  assumes "nearest_double x = x" and "2 powi (- 1022) \<le> x" and "x < 2 ^ 53" and "of_int n \<noteq> x"
  shows "x / 2 ^ 53 < \<bar>x - of_int n\<bar>"
proof -
  from small_quantum [OF assms(2,3)] obtain d
    where d: "quantum x = 1 / 2 ^ d" "x / 2 ^ 53 < quantum x" by blast
  have xpos: "x \<noteq> 0"
    using assms(2) zero_less_power_int [of "2::rat" "- 1022"] by linarith
  let ?M = "round_half_even (x / quantum x)"
  from assms(1) xpos have x: "x = of_int ?M / 2 ^ d"
    by (simp add: nearest_double_def d)
  let ?K = "?M - n * 2 ^ d"
  have diff: "x - of_int n = of_int ?K / 2 ^ d"
    by (subst x) (simp add: field_simps)
  have "?K \<noteq> 0"
  proof
    assume "?K = 0"
    with diff have "x - of_int n = 0" by simp
    with assms(4) show False by simp
  qed
  then have "1 \<le> \<bar>?K\<bar>" by linarith
  then have "(1::rat) \<le> \<bar>of_int ?K\<bar>"
    by (metis of_int_1_le_iff of_int_abs)
  then have "1 / 2 ^ d \<le> \<bar>of_int ?K\<bar> / (2 ^ d :: rat)"
    by (simp add: divide_right_mono)
  also have "\<dots> = \<bar>x - of_int n\<bar>"
    by (simp only: diff abs_divide) simp
  finally show ?thesis using d by simp
qed

lemma ceiling_quotient_double:
  assumes dbl: "nearest_double x = x" and lo: "60 * 2 powi (- 1022) \<le> x" and hi: "x < 2 ^ 53"
  shows "\<lceil>nearest_double (x / 60)\<rceil> = \<lceil>x / 60\<rceil> \<and> nearest_double (x / 60) < 2 ^ 53"
proof -
  let ?y = "x / 60"
  let ?q = "\<lceil>?y\<rceil>"
  have p: "(0::rat) < 2 powi (- 1022)" by (rule zero_less_power_int) simp
  from lo p have xlo: "2 powi (- 1022) \<le> x" by linarith
  from lo have ylo: "2 powi (- 1022) \<le> ?y" by simp
  from xlo p have xpos: "0 < x" by linarith
  have q: "of_int ?q - 1 < ?y" "?y \<le> of_int ?q" by linarith+
  have err: "\<bar>nearest_double ?y - ?y\<bar> \<le> ?y / 2 ^ 53"
    by (rule nearest_double_relative_error [OF ylo])
  have "of_int (60 * (?q - 1)) \<noteq> x" using q(1) by auto
  from double_integer_gap [OF dbl xlo hi this]
  have "x / 2 ^ 53 < x - of_int (60 * (?q - 1))" using q(1) by simp
  then have g1: "?y / 2 ^ 53 < ?y - (of_int ?q - 1)" by simp
  with err have below: "of_int ?q - 1 < nearest_double ?y" by linarith
  have qpos: "0 < ?q" using xpos q(2)
    by (smt (verit) divide_pos_pos of_int_0_less_iff order_less_le_trans zero_less_numeral)
  have yhi: "?y < 2 ^ 53 / 60" using hi by simp
  have qhi: "?q < 2 ^ 53"
  proof -
    have "(2::rat) ^ 53 / 60 + 1 \<le> 2 ^ 53" by simp
    with q(1) yhi have "(of_int ?q :: rat) < 2 ^ 53" by linarith
    then show ?thesis by (metis of_int_less_numeral_power_cancel_iff)
  qed
  have above: "nearest_double ?y \<le> of_int ?q"
  proof (cases "?y = of_int ?q")
    case True
    have "nearest_double (of_int ?q) = of_int ?q"
      using qpos qhi by (intro nearest_double_of_int) simp_all
    then show ?thesis using True by simp
  next
    case False
    then have "of_int (60 * ?q) \<noteq> x" by auto
    from double_integer_gap [OF dbl xlo hi this]
    have "x / 2 ^ 53 < of_int (60 * ?q) - x" using q(2) by simp
    then have "?y / 2 ^ 53 < of_int ?q - ?y" by simp
    with err show ?thesis by linarith
  qed
  from below above have "\<lceil>nearest_double ?y\<rceil> = ?q" by (intro ceiling_unique) simp_all
  moreover have "nearest_double ?y < 2 ^ 53"
  proof -
    have "(of_int ?q :: rat) < 2 ^ 53" using qhi
      by (metis of_int_less_numeral_power_cancel_iff)
    with above show ?thesis by linarith
  qed
  ultimately show ?thesis by simp
qed

subsection \<open>Whole minutes\<close>

lemma ceiling_div_60: "\<lceil>(of_int d :: rat) / 60\<rceil> = - ((- d) div 60)"
  using ceiling_divide_eq_div [of d 60, where ?'a = rat] by simp

lemma ceil_quotient_finite:
  assumes "nearest_double r = r" and "r = 0 \<or> 60 * 2 powi (- 1022) \<le> r" and "r < 2 ^ 53"
  shows "ceil (div_60 (Finite r)) = Inr \<lceil>r / 60\<rceil>"
proof (cases "r = 0")
  case True
  then show ?thesis by (simp add: nearest_double_def)
next
  case False
  with assms(2) have lo: "60 * 2 powi (- 1022) \<le> r" by simp
  have p: "(0::rat) < 2 powi (- 1022)" by (rule zero_less_power_int) simp
  from lo p have "0 \<le> r / 60" by simp
  then have nn: "0 \<le> nearest_double (r / 60)" by (rule nearest_double_nonneg)
  from ceiling_quotient_double [OF assms(1) lo assms(3)]
  have c: "\<lceil>nearest_double (r / 60)\<rceil> = \<lceil>r / 60\<rceil>" and b: "nearest_double (r / 60) < 2 ^ 53"
    by simp_all
  have "(2::rat) ^ 53 \<le> 2 ^ 1024" by (rule power_increasing) simp_all
  with b have "nearest_double (r / 60) < 2 ^ 1024" by linarith
  with nn c show ?thesis by (simp add: Let_def)
qed

lemma ceil_div_60_exact:
  assumes "exact_seconds x = Some s"
  shows "ceil_div_60 x = Inr \<lceil>s / 60\<rceil>"
proof (cases x)
  case (PyInt d)
  with assms have d: "0 \<le> d" "d < 2 ^ 53" and s: "s = of_int d"
    by (auto split: if_splits)
  let ?r = "of_int d :: rat"
  have dbl: "nearest_double ?r = ?r" by (rule nearest_double_of_int [OF d])
  have hi: "?r < 2 ^ 53" using d(2) by (metis of_int_less_numeral_power_cancel_iff)
  have "(2::rat) ^ 53 \<le> 2 ^ 1024" by (rule power_increasing) simp_all
  with hi d(1) have "\<not> 2 ^ 1024 \<le> \<bar>?r\<bar>" by simp
  then have conv: "float_of_int d = Inr (Finite ?r)"
    by (simp add: float_of_int_def dbl)
  have lo: "?r = 0 \<or> 60 * 2 powi (- 1022) \<le> ?r"
  proof (cases "d = 0")
    case True
    then show ?thesis by simp
  next
    case False
    with d(1) have "1 \<le> ?r" by simp
    moreover have "(2::rat) powi (- 1022) \<le> 2 powi (- 6)"
      by (intro power_int_increasing) simp_all
    then have "60 * (2::rat) powi (- 1022) \<le> 1" by (simp add: power_int_minus_divide)
    ultimately show ?thesis by linarith
  qed
  from ceil_quotient_finite [OF dbl lo hi] conv show ?thesis
    by (simp add: ceil_div_60_def PyInt s)
next
  case (PyFloat f)
  show ?thesis
  proof (cases f)
    case (Finite r)
    with assms PyFloat
    have r: "nearest_double r = r" "r = 0 \<or> 60 * 2 powi (- 1022) \<le> r" "r < 2 ^ 53"
      and s: "s = r"
      by (auto split: if_splits)
    from ceil_quotient_finite [OF r] show ?thesis
      by (simp add: ceil_div_60_def PyFloat Finite s)
  qed (use assms PyFloat in simp_all)
qed

lemma ceil_div_60_int:
  "0 \<le> d \<Longrightarrow> d < 2 ^ 53 \<Longrightarrow> ceil_div_60 (PyInt d) = Inr (- ((- d) div 60))"
  using ceil_div_60_exact [of "PyInt d" "of_int d"] by (simp add: ceiling_div_60)

lemma ceil_div_60_nonneg:
  assumes "nonneg x" and "ceil_div_60 x = Inr m"
  shows "0 \<le> m"
proof -
  have fin: "0 \<le> m" if "0 \<le> r" and "ceil (div_60 (Finite r)) = Inr m" for r
  proof -
    from that(1) have "0 \<le> nearest_double (r / 60)" by (intro nearest_double_nonneg) simp
    with that(2) show ?thesis by (auto simp: Let_def split: if_splits)
  qed
  show ?thesis
  proof (cases x)
    case (PyInt d)
    let ?r = "nearest_double (of_int d)"
    from PyInt assms(1) have r: "0 \<le> ?r" by (intro nearest_double_nonneg) simp
    from PyInt assms(2) have "ceil (div_60 (Finite ?r)) = Inr m"
      by (simp add: ceil_div_60_def float_of_int_def Let_def del: div_60.simps
          split: if_splits)
    with r show ?thesis by (rule fin)
  next
    case (PyFloat f)
    show ?thesis
    proof (cases f)
      case (Finite r)
      with assms PyFloat show ?thesis
        by (auto simp: ceil_div_60_def simp del: div_60.simps intro: fin)
    qed (use assms PyFloat in \<open>simp_all add: ceil_div_60_def\<close>)
  qed
qed

lemma exact_seconds_nonneg:
  assumes "exact_seconds x = Some s"
  shows "0 \<le> s"
proof (cases x)
  case (PyInt d)
  with assms show ?thesis by (auto split: if_splits)
next
  case (PyFloat f)
  have p: "(0::rat) < 2 powi (- 1022)" by (rule zero_less_power_int) simp
  show ?thesis
  proof (cases f)
    case (Finite r)
    with assms PyFloat have "s = r" and "r = 0 \<or> 60 * 2 powi (- 1022) \<le> r"
      by (auto split: if_splits)
    with p show ?thesis by auto
  qed (use assms PyFloat in simp_all)
qed

subsection \<open>Steps of a term contract\<close>

lemma new_month_fixed:
  assumes "start c = Some s"
  shows "TermContract_new_month mo yr b c =
           (Inr (),
            c\<lparr>bill := Some (b\<lparr>fixed_cost := fixed_cost b
                                  + (if mo = month s \<and> yr = year s then 300 else 0) + 20,
                                plan_name := ''TERM'', min_rate := 1 / 10\<rparr>),
              free := 100, curr_month := Some mo, curr_year := Some yr\<rparr>)"
  using assms
  by (simp add: TermContract_new_month_def Let_def bill_ops module_consts)

lemma new_month_free:
  "start c \<noteq> None \<Longrightarrow>
   free (snd (TermContract_new_month mo yr b c)) = 100
   \<and> start (snd (TermContract_new_month mo yr b c)) = start c"
  by (auto simp: TermContract_new_month_def TERM_MINS_def Let_def)

lemma bill_call_free:
  assumes "nonneg (duration cl)" and "0 \<le> free c"
  shows "0 \<le> free (snd (TermContract_bill_call cl c))
     \<and> free (snd (TermContract_bill_call cl c)) \<le> free c
     \<and> start (snd (TermContract_bill_call cl c)) = start c"
proof (cases "ceil_div_60 (duration cl)")
  case (Inl e)
  then show ?thesis using assms(2) by (simp add: TermContract_bill_call_def)
next
  case (Inr mins)
  from ceil_div_60_nonneg [OF assms(1) Inr] have "0 \<le> mins" .
  with assms(2) Inr show ?thesis
    by (auto simp: TermContract_bill_call_def Let_def split: option.splits sum.splits)
qed

lemma cancel_same: "snd (TermContract_cancel_contract c) = c"
  by (auto simp: TermContract_cancel_contract_def split: option.splits sum.splits)

lemma step_inv: "nonneg_duration x \<Longrightarrow> free_inv c \<Longrightarrow> free_inv (term_step x c)"
proof (cases x)
  case (NewMonth mo yr b)
  assume "free_inv c"
  then show ?thesis
    using new_month_free [of c mo yr b] NewMonth by (simp add: free_inv_def)
next
  case (BillCall cl)
  assume "nonneg_duration x" "free_inv c"
  then show ?thesis
    using bill_call_free [of cl c] BillCall by (simp add: free_inv_def)
next
  case Cancel
  assume "free_inv c"
  then show ?thesis using Cancel by (simp add: cancel_same)
qed

lemma run_inv: "list_all nonneg_duration ops \<Longrightarrow> free_inv c \<Longrightarrow> free_inv (term_run ops c)"
  by (induction ops arbitrary: c) (auto simp: step_inv)

lemma init_inv: "free_inv (TermContract_init s e)"
  by (simp add: free_inv_def TermContract_init_def TERM_MINS_def)

subsection \<open>Cycles of a term contract\<close>

lemma fixed_costs_added_eq:
  "start c = Some s \<Longrightarrow>
   fixed_costs_added cs c =
     map (\<lambda>x. if cycle_of x = (month s, year s) then 320 else 20) cs"
proof (induction cs arbitrary: c)
  case Nil
  then show ?case by simp
next
  case (Cons x cs)
  obtain mo yr b where x: "x = (mo, yr, b)" by (cases x)
  let ?c1 = "snd (TermContract_new_month mo yr b c)"
  have st: "start ?c1 = Some s"
    using Cons.prems by (simp add: new_month_fixed)
  have hd: "(case bill ?c1 of None \<Rightarrow> 0 | Some b1 \<Rightarrow> fixed_cost b1 - fixed_cost b)
              = (if (mo, yr) = (month s, year s) then 320 else 20)"
    using Cons.prems by (simp add: new_month_fixed)
  show ?case using Cons.IH [OF st] hd by (simp add: x Let_def)
qed

lemma count_list_map_distinct:
  "distinct (map f xs) \<Longrightarrow>
   count_list (map (\<lambda>x. if f x = k then (320::rat) else 20) xs) 320
     = (if k \<in> set (map f xs) then 1 else 0)"
  by (induction xs) auto

section \<open>Properties\<close>

subsection \<open>The default methods\<close>

text \<open>
  C5, as amended. For every call whose duration is an integer number of seconds from 0
  to below \<open>2 ^ 53\<close>, or a float from 0 to below \<open>2 ^ 53\<close> that is zero or at least
  \<open>60 * 2 powi (- 1022)\<close>, the default \<open>bill_call\<close> (of \<open>Contract\<close>, inherited by
  \<open>MTMContract\<close>) adds exactly \<open>ceil(duration / 60)\<close> billed minutes to the bound
  bill: with \<open>s\<close> the seconds of the call, the number \<open>m\<close> of minutes added is the
  least integer with \<open>s \<le> 60 * m\<close>, it is not negative, the cost of the bill grows by
  \<open>m\<close> minutes at the bill's rate, a call of one second bills one minute, and the free
  minutes of the bill are as before.
\<close>

theorem Contract_bill_call_rounds_up:
  assumes "bill c = Some b" and "exact_seconds (duration cl) = Some s"
  shows "\<exists>m. Contract_bill_call cl c
               = (Inr (), c\<lparr>bill := Some (b\<lparr>billed_min := billed_min b + m\<rparr>)\<rparr>)
           \<and> m = \<lceil>s / 60\<rceil>
           \<and> 0 \<le> m \<and> s \<le> 60 * of_int m \<and> 60 * of_int m < s + 60
           \<and> (s = 1 \<longrightarrow> m = 1)
           \<and> get_cost (b\<lparr>billed_min := billed_min b + m\<rparr>) = get_cost b + min_rate b * of_int m
           \<and> free_min (b\<lparr>billed_min := billed_min b + m\<rparr>) = free_min b"
proof -
  let ?m = "\<lceil>s / 60\<rceil>"
  have mins: "ceil_div_60 (duration cl) = Inr ?m"
    by (rule ceil_div_60_exact [OF assms(2)])
  have run: "Contract_bill_call cl c
               = (Inr (), c\<lparr>bill := Some (b\<lparr>billed_min := billed_min b + ?m\<rparr>)\<rparr>)"
    using assms(1) mins by (simp add: Contract_bill_call_def add_billed_minutes_def)
  have sy: "s = 60 * (s / 60)" by simp
  have "of_int ?m - 1 < s / 60" "s / 60 \<le> of_int ?m" by linarith+
  with sy have bnd: "s \<le> 60 * of_int ?m" "60 * of_int ?m < s + 60" by linarith+
  have "0 \<le> s" by (rule exact_seconds_nonneg [OF assms(2)])
  with bnd(1) have "(0::rat) \<le> of_int ?m" by linarith
  then have nonneg: "0 \<le> ?m" by (simp only: of_int_0_le_iff)
  have one: "s = 1 \<longrightarrow> ?m = 1" by (auto simp: ceiling_one_divide)
  have cost: "get_cost (b\<lparr>billed_min := billed_min b + ?m\<rparr>)
                = get_cost b + min_rate b * of_int ?m"
    by (simp add: get_cost_def algebra_simps)
  show ?thesis using run bnd nonneg one cost by auto
qed

text \<open>
  The theorem at a call of one second, at a call of 90 seconds and at a call of 90.5
  seconds, on a contract with an empty bill: one minute, two minutes and two minutes
  are billed.
\<close>

theorem Contract_bill_call_rounds_up_witness:
  "exact_seconds (PyInt 1) = Some 1
   \<and> Contract_bill_call \<lparr>duration = PyInt 1\<rparr> (Contract_init jan_2023\<lparr>bill := Some Bill_init\<rparr>)
     = (Inr (), Contract_init jan_2023\<lparr>bill := Some (Bill_init\<lparr>billed_min := 1\<rparr>)\<rparr>)
   \<and> Contract_bill_call \<lparr>duration = PyInt 90\<rparr> (Contract_init jan_2023\<lparr>bill := Some Bill_init\<rparr>)
     = (Inr (), Contract_init jan_2023\<lparr>bill := Some (Bill_init\<lparr>billed_min := 2\<rparr>)\<rparr>)
   \<and> exact_seconds (PyFloat (Finite (181 / 2))) = Some (181 / 2)
   \<and> Contract_bill_call \<lparr>duration = PyFloat (Finite (181 / 2))\<rparr>
        (Contract_init jan_2023\<lparr>bill := Some Bill_init\<rparr>)
     = (Inr (), Contract_init jan_2023\<lparr>bill := Some (Bill_init\<lparr>billed_min := 2\<rparr>)\<rparr>)"
  using Contract_bill_call_rounds_up
      [of "Contract_init jan_2023\<lparr>bill := Some Bill_init\<rparr>" Bill_init
          "\<lparr>duration = PyInt 1\<rparr>" 1]
    Contract_bill_call_rounds_up
      [of "Contract_init jan_2023\<lparr>bill := Some Bill_init\<rparr>" Bill_init
          "\<lparr>duration = PyInt 90\<rparr>" 90]
    Contract_bill_call_rounds_up
      [of "Contract_init jan_2023\<lparr>bill := Some Bill_init\<rparr>" Bill_init
          "\<lparr>duration = PyFloat (Finite (181 / 2))\<rparr>" "181 / 2"]
  by (simp add: Contract_init_def Bill_init_def double_eval power_int_minus_divide)

text \<open>
  The claim as it was stated, for every non-negative duration, fails where the float
  quotient is rounded: a call of \<open>60 * 2 ^ 52 + 1\<close> seconds is billed \<open>2 ^ 52\<close>
  minutes, one less than the whole minutes of its duration. The integer is converted
  to the double \<open>60 * 2 ^ 52\<close>, whose quotient by 60 is \<open>2 ^ 52\<close>.
\<close>

theorem Contract_bill_call_huge_duration_counterexample:
  "Contract_bill_call \<lparr>duration = PyInt 270215977642229761\<rparr>
        (Contract_init jan_2023\<lparr>bill := Some Bill_init\<rparr>)
     = (Inr (),
        Contract_init jan_2023\<lparr>bill := Some (Bill_init\<lparr>billed_min := 4503599627370496\<rparr>)\<rparr>)
   \<and> \<lceil>(270215977642229761 :: rat) / 60\<rceil> = 4503599627370497"
  by (simp add: Contract_bill_call_def Contract_init_def Bill_init_def
      add_billed_minutes_def double_eval)

text \<open>
  C9. The default \<open>cancel_contract\<close> (of \<open>Contract\<close>, inherited by \<open>MTMContract\<close>) sets
  the field \<open>start\<close> to \<open>None\<close> and changes nothing else, and with a bill bound it
  returns the total cost of that bill, with no deposit and no refund.
\<close>

theorem Contract_cancel_contract_clears_start:
  "snd (Contract_cancel_contract c) = c\<lparr>start := None\<rparr>
   \<and> start (snd (Contract_cancel_contract c)) = None
   \<and> (bill c = Some b \<longrightarrow> fst (Contract_cancel_contract c) = Inr (get_cost b))"
  by (simp add: Contract_cancel_contract_def Let_def split: option.splits)

text \<open>
  The theorem at the month-to-month contract of the end-to-end example: its bill holds
  the fee of 50 and two minutes at 0.05, the contract has a start date before the
  cancellation and none after it, and 50.10 is owed.
\<close>

theorem Contract_cancel_contract_clears_start_witness:
  "bill mtm_jan_2023 = Some mtm_bill_jan_2023
   \<and> start mtm_jan_2023 = Some jan_2023
   \<and> start (snd (Contract_cancel_contract mtm_jan_2023)) = None
   \<and> fst (Contract_cancel_contract mtm_jan_2023) = Inr (501 / 10)"
  using Contract_cancel_contract_clears_start [of mtm_jan_2023 mtm_bill_jan_2023]
  by (simp add: mtm_jan_2023_def mtm_bill_jan_2023_def MTMContract_init_def Contract_init_def
      MTMContract_new_month_def Contract_bill_call_def Bill_init_def bill_ops module_consts
      ceil_div_60_int Let_def)

subsection \<open>The term contract\<close>

text \<open>
  C1. The code at the input of the claim. A term contract in its first cycle has 100
  free minutes left and an empty bill. A call of 6000 seconds (100 minutes) is logged as
  100 free minutes. A call of 6060 seconds (101 minutes) takes the other branch of
  \<open>bill_call\<close>: one minute is billed and the counter of free minutes becomes 0, but the
  free minutes logged on the bill are \<open>ceil(100 / 60.0) = 2\<close>, not the 100 that were
  left.
\<close>

theorem TermContract_bill_call_101_minutes:
  "free term_cycle_2023 = 100
   \<and> map_option free_min (bill term_cycle_2023) = Some 0
   \<and> map_option billed_min (bill term_cycle_2023) = Some 0
   \<and> map_option free_min (bill (snd (TermContract_bill_call \<lparr>duration = PyInt 6000\<rparr> term_cycle_2023)))
       = Some 100
   \<and> fst (TermContract_bill_call \<lparr>duration = PyInt 6060\<rparr> term_cycle_2023) = Inr ()
   \<and> map_option free_min (bill (snd (TermContract_bill_call \<lparr>duration = PyInt 6060\<rparr> term_cycle_2023)))
       = Some 2
   \<and> map_option billed_min (bill (snd (TermContract_bill_call \<lparr>duration = PyInt 6060\<rparr> term_cycle_2023)))
       = Some 1
   \<and> free (snd (TermContract_bill_call \<lparr>duration = PyInt 6060\<rparr> term_cycle_2023)) = 0"
  by (simp add: term_cycle_2023_def TermContract_init_def TermContract_new_month_def
      TermContract_bill_call_def jan_2023_def jan_2025_def Bill_init_def bill_ops module_consts
      ceil_div_60_int Let_def)



text \<open>
  C6, as amended. For a term contract with a start date, \<open>new_month\<close> adds the deposit
  of 300 to the fixed cost of the bill, on top of the monthly fee of 20, if and only if
  the given month and year are those of the start date. Over a sequence of distinct
  cycles the deposit is charged at most once: once when the start cycle is in the
  sequence, and not at all when it is not.
\<close>

theorem TermContract_deposit_at_most_once:
  assumes "start c = Some s" and "distinct (map cycle_of cs)"
  shows "map_option fixed_cost (bill (snd (TermContract_new_month mo yr b c)))
           = Some (fixed_cost b + (if mo = month s \<and> yr = year s then 300 else 0) + 20)
       \<and> deposits_charged cs c = (if (month s, year s) \<in> set (map cycle_of cs) then 1 else 0)"
proof -
  have one: "map_option fixed_cost (bill (snd (TermContract_new_month mo yr b c)))
           = Some (fixed_cost b + (if mo = month s \<and> yr = year s then 300 else 0) + 20)"
    using assms(1) by (simp add: new_month_fixed)
  have "deposits_charged cs c
          = count_list
              (map (\<lambda>x. if cycle_of x = (month s, year s) then (320::rat) else 20) cs) 320"
    using assms(1) by (simp add: deposits_charged_def fixed_costs_added_eq module_consts)
  also have "\<dots> = (if (month s, year s) \<in> set (map cycle_of cs) then 1 else 0)"
    using assms(2) by (rule count_list_map_distinct)
  finally show ?thesis using one by simp
qed

text \<open>
  The theorem at a contract started in January 2023 and the cycles December 2022,
  January 2023 and February 2023: the deposit is charged once, and the bill of January
  2023 gets the fixed cost 320.
\<close>

theorem TermContract_deposit_at_most_once_witness:
  "start (TermContract_init jan_2023 jan_2025) = Some jan_2023
   \<and> distinct (map cycle_of [(12, 2022, Bill_init), (1, 2023, Bill_init), (2, 2023, Bill_init)])
   \<and> deposits_charged [(12, 2022, Bill_init), (1, 2023, Bill_init), (2, 2023, Bill_init)]
       (TermContract_init jan_2023 jan_2025) = 1
   \<and> map_option fixed_cost
        (bill (snd (TermContract_new_month 1 2023 Bill_init (TermContract_init jan_2023 jan_2025))))
       = Some 320"
  using TermContract_deposit_at_most_once
    [of "TermContract_init jan_2023 jan_2025" jan_2023
        "[(12, 2022, Bill_init), (1, 2023, Bill_init), (2, 2023, Bill_init)]" 1 2023 Bill_init]
  by (simp add: TermContract_init_def jan_2023_def Bill_init_def)

text \<open>
  The claim as it was stated fails on a sequence of cycles without the start cycle: a
  contract started in January 2023 whose only cycle is February 2023 is never charged
  the deposit.
\<close>

theorem TermContract_deposit_never_charged_counterexample:
  "deposits_charged [(2, 2023, Bill_init)] (TermContract_init jan_2023 jan_2025) = 0"
  by (simp add: deposits_charged_def TermContract_init_def TermContract_new_month_def
      jan_2023_def jan_2025_def Bill_init_def bill_ops module_consts Let_def)

text \<open>
  C8. Whatever sequence of \<open>new_month\<close>, \<open>bill_call\<close> and \<open>cancel_contract\<close> a term
  contract has gone through since its construction, with calls of non-negative duration
  only, its counter of free minutes is at least 0 and at most 100; a \<open>new_month\<close>
  sets it to 100; and a \<open>bill_call\<close> of non-negative duration leaves it as it is or
  decreases it.
\<close>

theorem TermContract_free_invariant:
  assumes "list_all nonneg_duration ops"
  shows "0 \<le> free (term_run ops (TermContract_init s e))
     \<and> free (term_run ops (TermContract_init s e)) \<le> 100
     \<and> free (term_step (NewMonth mo yr b) (term_run ops (TermContract_init s e))) = 100
     \<and> (nonneg (duration cl) \<longrightarrow>
          free (term_step (BillCall cl) (term_run ops (TermContract_init s e)))
            \<le> free (term_run ops (TermContract_init s e)))"
proof -
  let ?c = "term_run ops (TermContract_init s e)"
  have inv: "free_inv ?c" using assms init_inv by (rule run_inv)
  then have a: "0 \<le> free ?c \<and> free ?c \<le> 100" and st: "start ?c \<noteq> None"
    by (simp_all add: free_inv_def)
  have b: "free (term_step (NewMonth mo yr b) ?c) = 100"
    using new_month_free [OF st] by simp
  have c: "nonneg (duration cl) \<longrightarrow> free (term_step (BillCall cl) ?c) \<le> free ?c"
    using bill_call_free [of cl ?c] a by simp
  show ?thesis using a b c by blast
qed

text \<open>
  The theorem at a first cycle with a call of 90 seconds and one of 6000 seconds, which
  use up the free minutes: the counter is 0, a further call of 30 seconds leaves it at
  0, and the next \<open>new_month\<close> sets it to 100.
\<close>

theorem TermContract_free_invariant_witness:
  "list_all nonneg_duration term_ops_2023
   \<and> free (term_run term_ops_2023 (TermContract_init jan_2023 jan_2025)) = 0
   \<and> free (term_step (NewMonth 2 2023 Bill_init)
             (term_run term_ops_2023 (TermContract_init jan_2023 jan_2025))) = 100
   \<and> free (term_step (BillCall \<lparr>duration = PyInt 30\<rparr>)
             (term_run term_ops_2023 (TermContract_init jan_2023 jan_2025))) = 0"
  using TermContract_free_invariant
      [of term_ops_2023 jan_2023 jan_2025 2 2023 Bill_init "\<lparr>duration = PyInt 30\<rparr>"]
  by (simp add: term_ops_2023_def TermContract_init_def TermContract_new_month_def
      TermContract_bill_call_def jan_2023_def jan_2025_def Bill_init_def bill_ops module_consts
      ceil_div_60_int Let_def)

subsection \<open>The prepaid contract\<close>

text \<open>
  C7. The constructor of \<open>PrepaidContract\<close> stores the negation of its balance argument:
  for every input \<open>b\<close> the balance after construction is \<open>- b\<close>. Constructing with
  \<open>-40\<close> gives the balance \<open>40\<close>, and an input is positive exactly when the stored
  balance is negative.
\<close>

theorem PrepaidContract_init_negates:
  "balance (PrepaidContract_init s b) = - b
   \<and> balance (PrepaidContract_init s (- 40)) = 40
   \<and> (balance (PrepaidContract_init s b) < 0) = (0 < b)"
  by (simp add: PrepaidContract_init_def)


text \<open>
  C4. The \<open>cancel_contract\<close> of a prepaid contract returns the balance when the balance
  is strictly positive and 0 when it is zero or negative; what it returns is never
  negative.
\<close>

theorem PrepaidContract_cancel_contract_owed:
  "fst (PrepaidContract_cancel_contract c) = Inr (if 0 < balance c then balance c else 0)
   \<and> (\<exists>r. fst (PrepaidContract_cancel_contract c) = Inr r \<and> 0 \<le> r)"
  by (simp add: PrepaidContract_cancel_contract_def)

subsection \<open>The overriding cancellations\<close>

text \<open>
  C10. The \<open>cancel_contract\<close> of a term contract and that of a prepaid contract leave
  the whole object as it was, whatever they return or raise: the field \<open>start\<close> is not
  cleared, and a contract cancelled right after its construction still holds its start
  date.
\<close>

theorem cancel_contract_overrides_keep_start:
  "snd (TermContract_cancel_contract c) = c
   \<and> start (snd (TermContract_cancel_contract c)) = start c
   \<and> snd (PrepaidContract_cancel_contract p) = p
   \<and> start (snd (PrepaidContract_cancel_contract p)) = start p
   \<and> start (snd (TermContract_cancel_contract (TermContract_init s e))) = Some s
   \<and> start (snd (PrepaidContract_cancel_contract (PrepaidContract_init s x))) = Some s"
  by (simp add: cancel_same PrepaidContract_cancel_contract_def TermContract_init_def
      PrepaidContract_init_def)

end
